theory Spec2Isabelle
  imports Complex_Main
begin

section \<open>The progress panel: coalescing buffer and throttled flush\<close>

text \<open>
  The component under study is the progress panel of the compute page. It listens to the
  event channel of the running job (topic \<open>progress:\<close> followed by the job id), merges every payload into a
  pending record, and a single 100 ms timeout commits the pending record onto the three
  displayed refs \<open>completed\<close>, \<open>total\<close> and \<open>details\<close>.

  Numbers of the payload are counts. A JavaScript number is a double; the model has the
  doubles that are integers, as \<open>int\<close>, and adds them as doubles are added (see
  \<open>js_add\<close>). Fractions, \<open>NaN\<close> and the infinities are not in the model. A field that
  fails the test \<open>typeof x === "number"\<close> is \<open>None\<close>. The payload's field \<open>total\<close>
  is named \<open>total_p\<close> here, because the displayed ref of the panel has the same name.
\<close>

record ProgressPayload =
  progress :: "int option"
  progressInc :: "int option"
  total_p :: "int option"
  detail :: "string option"

text \<open>
  The module-level variables of the panel, followed by the part of the host the code talks
  to: the outstanding timeouts of \<open>window\<close> (by handle), the listeners registered with
  the event channel (by id and topic), the calls of \<open>listen\<close> that have not settled yet
  (by id and topic), whether the channel accepts a new listener, the number of
  scroll-to-bottom callbacks handed to \<open>nextTick\<close>, and the number of arguments the
  engine accepts in one call (it depends on the engine and on the stack).
\<close>

record panel =
  completed :: int
  total :: int
  details :: "string list"
  flushHandle :: "nat option"
  progressUnlisten :: "nat option"
  pendingCompleted :: "int option"
  pendingIncrement :: int
  pendingTotal :: "int option"
  pendingDetailIndex :: nat
  pendingDetails :: "string list"
  timers :: "nat list"
  nextTimer :: nat
  listeners :: "(nat \<times> string) list"
  nextListener :: nat
  requests :: "(nat \<times> string) list"
  channelUp :: bool
  scrollTicks :: nat
  argumentLimit :: nat

text \<open>
  The job handle is of type \<open>unknown\<close>. The panel only ever puts it into a template
  literal, so a handle other than \<open>undefined\<close> and \<open>null\<close> is given by the text the
  template literal makes of it.
\<close>

datatype jobId = JUndefined | JNull | JValue string

datatype error = ListenRejected | RangeError

subsection \<open>Template literals\<close>

definition digit_char :: "nat \<Rightarrow> char" where
  "digit_char d = ''0123456789'' ! d"

fun string_of_nat :: "nat \<Rightarrow> string" where
  "string_of_nat n =
     (if n < 10 then [digit_char n]
      else string_of_nat (n div 10) @ [digit_char (n mod 10)])"

declare string_of_nat.simps [simp del]

text \<open>\<open>`progress:${jobId}`\<close>\<close>

fun topic :: "jobId \<Rightarrow> string" where
  "topic JUndefined = ''progress:undefined''"
| "topic JNull = ''progress:null''"
| "topic (JValue t) = ''progress:'' @ t"

text \<open>\<open>`[${pendingDetailIndex}] ${payload.detail}`\<close>\<close>

definition detail_line :: "nat \<Rightarrow> string \<Rightarrow> string" where
  "detail_line i d = ''['' @ string_of_nat i @ ''] '' @ d"

subsection \<open>Sums and quotients of numbers\<close>

text \<open>
  The sum of two doubles is the exact sum rounded to the nearest double, a tie going to
  the even significand, and adding zero changes nothing. A double has 53 significant
  bits: an integer of at most that many bits is kept as it is, a longer one loses its low
  bits. (A sum of magnitude \<open>2 ^ 1024\<close> or more is an infinity in JavaScript and has no
  counterpart here.)
\<close>

function bit_length :: "int \<Rightarrow> nat" where
  "bit_length n = (if n \<le> 0 then 0 else Suc (bit_length (n div 2)))"
  by pat_completeness auto
termination
  by (relation "measure nat") auto

declare bit_length.simps [simp del]

definition nearest_double :: "int \<Rightarrow> int" where
  "nearest_double x =
     (let n = \<bar>x\<bar> in
      if n \<le> 2 ^ 53 then x
      else let q = 2 ^ (bit_length n - 53); m = n div q; r = n mod q;
               k = (if 2 * r < q \<or> (2 * r = q \<and> even m) then m else m + 1)
           in if x < 0 then - (k * q) else k * q)"

definition js_add :: "int \<Rightarrow> int \<Rightarrow> int" where
  "js_add a b = (if a = 0 then b else if b = 0 then a else nearest_double (a + b))"

text \<open>
  The quotient of two JavaScript numbers is \<open>Infinity\<close>, \<open>-Infinity\<close> or \<open>NaN\<close> when
  the divisor is zero; \<open>NotFinite\<close> stands for these three.
\<close>

datatype quotient = Finite rat | NotFinite

definition js_divide :: "int \<Rightarrow> int \<Rightarrow> quotient" where
  "js_divide a b = (if b = 0 then NotFinite else Finite (of_int a / of_int b))"

definition linearProgress :: "panel \<Rightarrow> quotient" where
  "linearProgress s = (if total s = 0 then Finite 0 else js_divide (completed s) (total s))"

text \<open>The binding \<open>:indeterminate="total === 0"\<close> of the progress bar.\<close>

definition indeterminate :: "panel \<Rightarrow> bool" where
  "indeterminate s = (total s = 0)"

subsection \<open>Timer, pending record and flush\<close>

definition PROGRESS_THROTTLE_MS :: nat where
  "PROGRESS_THROTTLE_MS = 100"

definition cancelFlushTimer :: "panel \<Rightarrow> panel" where
  "cancelFlushTimer s =
     (case flushHandle s of
        None \<Rightarrow> s
      | Some h \<Rightarrow> s\<lparr>flushHandle := None, timers := removeAll h (timers s)\<rparr>)"

definition resetPending :: "panel \<Rightarrow> panel" where
  "resetPending s =
     s\<lparr>pendingCompleted := None, pendingIncrement := 0, pendingTotal := None,
       pendingDetailIndex := 0, pendingDetails := []\<rparr>"

definition clearDisplayedProgress :: "panel \<Rightarrow> panel" where
  "clearDisplayedProgress s = s\<lparr>completed := 0, total := 0, details := []\<rparr>"

text \<open>
  \<open>if (details.value.length > 10500) details.value = details.value.slice(length - 10000)\<close>:
  the log is cut only once it is longer than 10500 lines, and then to its last 10000.
\<close>

definition trimDetails :: "string list \<Rightarrow> string list" where
  "trimDetails ds = (if length ds > 10500 then drop (length ds - 10000) ds else ds)"

text \<open>
  \<open>details.value.push(...pendingDetails)\<close> passes every pending line as an argument of
  one call. With more lines than the engine accepts the call throws a \<open>RangeError\<close>
  before anything is pushed: the function is left with \<open>total\<close> and \<open>completed\<close>
  written, the log as it was and the pending lines still pending.
\<close>

definition flushProgressUpdates :: "panel \<Rightarrow> (error + unit) \<times> panel" where
  "flushProgressUpdates s =
     (let s1 = (case pendingTotal s of
                  Some t \<Rightarrow> s\<lparr>total := t, pendingTotal := None\<rparr>
                | None \<Rightarrow> s);
          s2 = (case pendingCompleted s1 of
                  Some c \<Rightarrow> s1\<lparr>completed := c, pendingCompleted := None\<rparr>
                | None \<Rightarrow> s1);
          s3 = (if pendingIncrement s2 \<noteq> 0
                then s2\<lparr>completed := js_add (completed s2) (pendingIncrement s2),
                        pendingIncrement := 0\<rparr>
                else s2)
      in if pendingDetails s3 = [] then (Inr (), s3)
         else if argumentLimit s3 < length (pendingDetails s3) then (Inl RangeError, s3)
         else (Inr (),
               s3\<lparr>details := trimDetails (details s3 @ pendingDetails s3),
                  pendingDetails := [],
                  scrollTicks := Suc (scrollTicks s3)\<rparr>))"

text \<open>The callback handed to \<open>window.setTimeout\<close>.\<close>

definition flushTimeout :: "panel \<Rightarrow> (error + unit) \<times> panel" where
  "flushTimeout s = flushProgressUpdates (s\<lparr>flushHandle := None\<rparr>)"

definition scheduleProgressFlush :: "panel \<Rightarrow> panel" where
  "scheduleProgressFlush s =
     (case flushHandle s of
        Some h \<Rightarrow> s
      | None \<Rightarrow> s\<lparr>flushHandle := Some (nextTimer s),
                  timers := timers s @ [nextTimer s],
                  nextTimer := Suc (nextTimer s)\<rparr>)"

text \<open>
  The host runs the callback of timeout \<open>h\<close> when it expires, once, and only if the
  timeout has not been cleared. An error the callback throws goes to the host; the state
  stays as the callback left it.
\<close>

definition fireTimer :: "nat \<Rightarrow> panel \<Rightarrow> panel" where
  "fireTimer h s =
     (if h \<in> set (timers s) then snd (flushTimeout (s\<lparr>timers := removeAll h (timers s)\<rparr>))
      else s)"

subsection \<open>The listener\<close>

text \<open>\<open>if (payload.detail)\<close>: a string is truthy unless it is empty.\<close>

fun truthy :: "string option \<Rightarrow> bool" where
  "truthy None = False"
| "truthy (Some d) = (d \<noteq> [])"

text \<open>
  The handler that \<open>startListening\<close> registers (the call of \<open>console.log\<close> is left
  out).
\<close>

definition onProgress :: "ProgressPayload \<Rightarrow> panel \<Rightarrow> panel" where
  "onProgress p s =
     (let s1 = (case progress p of Some v \<Rightarrow> s\<lparr>pendingCompleted := Some v\<rparr> | None \<Rightarrow> s);
          s2 = (case progressInc p of
                  Some v \<Rightarrow> s1\<lparr>pendingIncrement := js_add (pendingIncrement s1) v\<rparr>
                | None \<Rightarrow> s1);
          s3 = (case total_p p of Some v \<Rightarrow> s2\<lparr>pendingTotal := Some v\<rparr> | None \<Rightarrow> s2);
          s4 = (if truthy (detail p)
                then s3\<lparr>pendingDetailIndex := Suc (pendingDetailIndex s3),
                        pendingDetails := pendingDetails s3 @
                          [detail_line (Suc (pendingDetailIndex s3)) (the (detail p))]\<rparr>
                else s3)
      in scheduleProgressFlush s4)"

text \<open>
  The handler of the variant of the panel that keeps the log as one string and numbers
  the lines when it renders them: the same four tests, the detail pushed as it is.
\<close>

definition onProgress_unnumbered :: "ProgressPayload \<Rightarrow> panel \<Rightarrow> panel" where
  "onProgress_unnumbered p s =
     (let s1 = (case progress p of Some v \<Rightarrow> s\<lparr>pendingCompleted := Some v\<rparr> | None \<Rightarrow> s);
          s2 = (case progressInc p of
                  Some v \<Rightarrow> s1\<lparr>pendingIncrement := js_add (pendingIncrement s1) v\<rparr>
                | None \<Rightarrow> s1);
          s3 = (case total_p p of Some v \<Rightarrow> s2\<lparr>pendingTotal := Some v\<rparr> | None \<Rightarrow> s2);
          s4 = (if truthy (detail p)
                then s3\<lparr>pendingDetails := pendingDetails s3 @ [the (detail p)]\<rparr>
                else s3)
      in scheduleProgressFlush s4)"

text \<open>
  A call of \<open>listen\<close> of the event API returns a promise: the call is recorded under a
  fresh id, and the host settles it later. When the channel accepts, the handler is
  registered under that id and the promise resolves to the function that removes it;
  otherwise the promise is rejected.
\<close>

definition listen :: "string \<Rightarrow> panel \<Rightarrow> nat \<times> panel" where
  "listen t s =
     (nextListener s,
      s\<lparr>requests := requests s @ [(nextListener s, t)],
        nextListener := Suc (nextListener s)\<rparr>)"

definition settleListen :: "nat \<times> string \<Rightarrow> panel \<Rightarrow> (error + nat) \<times> panel" where
  "settleListen rq s =
     (let s1 = s\<lparr>requests := removeAll rq (requests s)\<rparr>
      in if channelUp s then (Inr (fst rq), s1\<lparr>listeners := listeners s1 @ [rq]\<rparr>)
         else (Inl ListenRejected, s1))"

definition unlisten :: "nat \<Rightarrow> panel \<Rightarrow> panel" where
  "unlisten u s = s\<lparr>listeners := filter (\<lambda>l. fst l \<noteq> u) (listeners s)\<rparr>"

text \<open>
  \<open>startListening\<close> is asynchronous. \<open>startListening_call\<close> is what runs when it is
  called, up to the \<open>await\<close>: the reset, the release of the listener that
  \<open>progressUnlisten\<close> holds, and the call of \<open>listen\<close>, whose id it returns.
  \<open>startListening_resume\<close> is what runs when the promise has settled: the assignment
  of \<open>progressUnlisten\<close>, or nothing when the promise was rejected, in which case the
  call of \<open>startListening\<close> fails. Other events may run in between.
  \<open>startListening\<close> itself is the call in which nothing else runs in between.
\<close>

definition startListening_call :: "jobId \<Rightarrow> panel \<Rightarrow> nat \<times> panel" where
  "startListening_call j s =
     (let s1 = cancelFlushTimer (resetPending (clearDisplayedProgress s));
          s2 = (case progressUnlisten s1 of None \<Rightarrow> s1 | Some u \<Rightarrow> unlisten u s1)
      in listen (topic j) s2)"

fun startListening_resume :: "(error + nat) \<times> panel \<Rightarrow> (error + unit) \<times> panel" where
  "startListening_resume (Inl e, s) = (Inl e, s)"
| "startListening_resume (Inr u, s) = (Inr (), s\<lparr>progressUnlisten := Some u\<rparr>)"

definition startListening :: "jobId \<Rightarrow> panel \<Rightarrow> (error + unit) \<times> panel" where
  "startListening j s =
     (case startListening_call j s of
        (r, s1) \<Rightarrow> startListening_resume (settleListen (r, topic j) s1))"

definition onBeforeUnmount :: "panel \<Rightarrow> panel" where
  "onBeforeUnmount s =
     (let s1 = cancelFlushTimer s;
          s2 = (case progressUnlisten s1 of None \<Rightarrow> s1 | Some u \<Rightarrow> unlisten u s1)
      in s2\<lparr>progressUnlisten := None\<rparr>)"

subsection \<open>The event loop\<close>

text \<open>
  One event runs to completion before the next: a payload emitted on a topic (the handler
  runs once for every listener of that topic), a timeout expiring, the watcher of
  \<open>props.jobId\<close> calling \<open>startListening\<close>, the host settling a call of \<open>listen\<close>
  (after which the suspended \<open>startListening\<close> resumes), the component being unmounted,
  and the channel going up or down.
\<close>

datatype event =
    Emit string ProgressPayload
  | Expire nat
  | Watch jobId
  | Settle nat
  | Unmount
  | Channel bool

fun step :: "event \<Rightarrow> panel \<Rightarrow> panel" where
  "step (Emit t p) s = fold (\<lambda>l. onProgress p) (filter (\<lambda>l. snd l = t) (listeners s)) s"
| "step (Expire h) s = fireTimer h s"
| "step (Watch j) s = snd (startListening_call j s)"
| "step (Settle r) s =
     (case map_of (requests s) r of
        None \<Rightarrow> s
      | Some t \<Rightarrow> snd (startListening_resume (settleListen (r, t) s)))"
| "step Unmount s = onBeforeUnmount s"
| "step (Channel b) s = s\<lparr>channelUp := b\<rparr>"

definition run :: "event list \<Rightarrow> panel \<Rightarrow> panel" where
  "run evs s = fold step evs s"

text \<open>
  The state in which the script of the component leaves its variables, on a host that
  accepts 65535 arguments in a call.
\<close>

definition init :: panel where
  "init = \<lparr>completed = 0, total = 0, details = [], flushHandle = None,
           progressUnlisten = None, pendingCompleted = None, pendingIncrement = 0,
           pendingTotal = None, pendingDetailIndex = 0, pendingDetails = [],
           timers = [], nextTimer = 1, listeners = [], nextListener = 1, requests = [],
           channelUp = True, scrollTicks = 0, argumentLimit = 65535\<rparr>"

subsection \<open>Windows and traces\<close>

text \<open>The value a variable holds after a run of optional writes: the last one written.\<close>

definition last_write :: "'a option \<Rightarrow> 'a option list \<Rightarrow> 'a option" where
  "last_write d xs =
     (if filter (\<lambda>x. x \<noteq> None) xs = [] then d else last (filter (\<lambda>x. x \<noteq> None) xs))"

text \<open>The increment a payload carries, 0 when it carries none.\<close>

definition increment_of :: "ProgressPayload \<Rightarrow> int" where
  "increment_of p = (case progressInc p of Some v \<Rightarrow> v | None \<Rightarrow> 0)"

text \<open>The detail texts of the payloads that carry one, in their order.\<close>

definition window_texts :: "ProgressPayload list \<Rightarrow> string list" where
  "window_texts ps = map (\<lambda>p. the (detail p)) (filter (\<lambda>p. truthy (detail p)) ps)"

text \<open>The texts \<open>ts\<close> as lines numbered \<open>n + 1\<close>, \<open>n + 2\<close>, ...\<close>

definition numbered :: "nat \<Rightarrow> string list \<Rightarrow> string list" where
  "numbered n ts = map (\<lambda>i. detail_line (Suc (n + i)) (ts ! i)) [0..<length ts]"

text \<open>
  Between two calls of \<open>startListening\<close> the panel sees calls of the handler and of the
  timeout callback, in any order.
\<close>

datatype action = Ingest ProgressPayload | Flush

fun act :: "action \<Rightarrow> panel \<Rightarrow> panel" where
  "act (Ingest p) s = onProgress p s"
| "act Flush s = snd (flushTimeout s)"

definition play :: "action list \<Rightarrow> panel \<Rightarrow> panel" where
  "play acts s = fold act acts s"

text \<open>The detail texts that arrive during a trace, in the order of arrival.\<close>

fun arrived :: "action list \<Rightarrow> string list" where
  "arrived [] = []"
| "arrived (Ingest p # acts) = (if truthy (detail p) then the (detail p) # arrived acts else arrived acts)"
| "arrived (Flush # acts) = arrived acts"

text \<open>
  The log and the pending lines together are the lines \<open>k + 1\<close> to \<open>length ts\<close> of the
  arrivals \<open>ts\<close>, each under the number of its arrival, and the counter stands at the
  number of arrivals.
\<close>

definition numbering :: "string list \<Rightarrow> panel \<Rightarrow> bool" where
  "numbering ts s \<longleftrightarrow>
     pendingDetailIndex s = length ts \<and>
     (\<exists>k \<in> set [0..<Suc (length ts)].
        details s @ pendingDetails s = map (\<lambda>i. detail_line (Suc i) (ts ! i)) [k..<length ts])"

text \<open>At most one timeout is outstanding, and it is the one \<open>flushHandle\<close> holds.\<close>

definition one_timer :: "panel \<Rightarrow> bool" where
  "one_timer s \<longleftrightarrow> timers s = (case flushHandle s of None \<Rightarrow> [] | Some h \<Rightarrow> [h])"

section \<open>Field by field\<close>

subsection \<open>Sums\<close>

lemma js_add_zero [simp]: "js_add a 0 = a" "js_add 0 b = b"
  by (simp_all add: js_add_def)

lemma js_add_exact: "\<bar>a + b\<bar> \<le> 2 ^ 53 \<Longrightarrow> js_add a b = a + b"
  by (simp add: js_add_def nearest_double_def)

subsection \<open>The handler\<close>

lemma onProgress_pendingCompleted:
  "pendingCompleted (onProgress p s) = (case progress p of Some v \<Rightarrow> Some v | None \<Rightarrow> pendingCompleted s)"
  by (simp add: onProgress_def scheduleProgressFlush_def Let_def split: option.splits)

lemma onProgress_pendingIncrement:
  "pendingIncrement (onProgress p s) = js_add (pendingIncrement s) (increment_of p)"
  by (simp add: onProgress_def scheduleProgressFlush_def increment_of_def Let_def split: option.splits)

lemma onProgress_pendingTotal:
  "pendingTotal (onProgress p s) = (case total_p p of Some v \<Rightarrow> Some v | None \<Rightarrow> pendingTotal s)"
  by (simp add: onProgress_def scheduleProgressFlush_def Let_def split: option.splits)

lemma onProgress_pendingDetails:
  "pendingDetails (onProgress p s) =
     pendingDetails s @ (if truthy (detail p) then [detail_line (Suc (pendingDetailIndex s)) (the (detail p))] else [])"
  by (simp add: onProgress_def scheduleProgressFlush_def Let_def split: option.splits)

lemma onProgress_pendingDetailIndex:
  "pendingDetailIndex (onProgress p s) = (if truthy (detail p) then Suc (pendingDetailIndex s) else pendingDetailIndex s)"
  by (simp add: onProgress_def scheduleProgressFlush_def Let_def split: option.splits)

lemma onProgress_committed:
  "completed (onProgress p s) = completed s" "total (onProgress p s) = total s"
  "details (onProgress p s) = details s" "scrollTicks (onProgress p s) = scrollTicks s"
  "listeners (onProgress p s) = listeners s" "progressUnlisten (onProgress p s) = progressUnlisten s"
  "channelUp (onProgress p s) = channelUp s" "nextListener (onProgress p s) = nextListener s"
  "argumentLimit (onProgress p s) = argumentLimit s" "requests (onProgress p s) = requests s"
  by (simp_all add: onProgress_def scheduleProgressFlush_def Let_def split: option.splits)

lemma onProgress_timer:
  "flushHandle (onProgress p s) = Some (case flushHandle s of Some h \<Rightarrow> h | None \<Rightarrow> nextTimer s)"
  "timers (onProgress p s) = (case flushHandle s of Some h \<Rightarrow> timers s | None \<Rightarrow> timers s @ [nextTimer s])"
  "nextTimer (onProgress p s) = (case flushHandle s of Some h \<Rightarrow> nextTimer s | None \<Rightarrow> Suc (nextTimer s))"
  by (simp_all add: onProgress_def scheduleProgressFlush_def Let_def split: option.splits)

lemmas onProgress_fields = onProgress_pendingCompleted onProgress_pendingIncrement
  onProgress_pendingTotal onProgress_pendingDetails onProgress_pendingDetailIndex
  onProgress_committed onProgress_timer

subsection \<open>The flush\<close>

lemma flush_result:
  "fst (flushProgressUpdates s) =
     (if pendingDetails s \<noteq> [] \<and> argumentLimit s < length (pendingDetails s)
      then Inl RangeError else Inr ())"
  by (simp add: flushProgressUpdates_def Let_def split: option.splits)

lemma flush_completed:
  "completed (snd (flushProgressUpdates s)) =
     js_add (case pendingCompleted s of Some c \<Rightarrow> c | None \<Rightarrow> completed s) (pendingIncrement s)"
  by (simp add: flushProgressUpdates_def Let_def split: option.splits)

lemma flush_total:
  "total (snd (flushProgressUpdates s)) = (case pendingTotal s of Some t \<Rightarrow> t | None \<Rightarrow> total s)"
  by (simp add: flushProgressUpdates_def Let_def split: option.splits)

lemma flush_details:
  "details (snd (flushProgressUpdates s)) =
     (if pendingDetails s = [] \<or> argumentLimit s < length (pendingDetails s) then details s
      else trimDetails (details s @ pendingDetails s))"
  by (simp add: flushProgressUpdates_def Let_def split: option.splits)

lemma flush_pendingDetails:
  "pendingDetails (snd (flushProgressUpdates s)) =
     (if argumentLimit s < length (pendingDetails s) then pendingDetails s else [])"
  by (simp add: flushProgressUpdates_def Let_def split: option.splits)

lemma flush_pending:
  "pendingCompleted (snd (flushProgressUpdates s)) = None"
  "pendingIncrement (snd (flushProgressUpdates s)) = 0"
  "pendingTotal (snd (flushProgressUpdates s)) = None"
  "pendingDetailIndex (snd (flushProgressUpdates s)) = pendingDetailIndex s"
  by (simp_all add: flushProgressUpdates_def Let_def split: option.splits)

lemma flush_host:
  "timers (snd (flushProgressUpdates s)) = timers s"
  "flushHandle (snd (flushProgressUpdates s)) = flushHandle s"
  "nextTimer (snd (flushProgressUpdates s)) = nextTimer s"
  "listeners (snd (flushProgressUpdates s)) = listeners s"
  "progressUnlisten (snd (flushProgressUpdates s)) = progressUnlisten s"
  "argumentLimit (snd (flushProgressUpdates s)) = argumentLimit s"
  by (simp_all add: flushProgressUpdates_def Let_def split: option.splits)

lemmas flush_fields = flush_result flush_completed flush_total flush_details flush_pendingDetails
  flush_pending flush_host

subsection \<open>A window of payloads\<close>

lemma last_write_Nil: "last_write d [] = d"
  by (simp add: last_write_def)

lemma last_write_Cons:
  "last_write d (x # xs) = last_write (case x of Some v \<Rightarrow> Some v | None \<Rightarrow> d) xs"
  by (cases x) (auto simp: last_write_def)

lemma numbered_Nil: "numbered n [] = []"
  by (simp add: numbered_def)

lemma numbered_Cons: "numbered n (t # ts) = detail_line (Suc n) t # numbered (Suc n) ts"
proof -
  have "[0..<length (t # ts)] = 0 # map Suc [0..<length ts]"
    by (simp add: upt_conv_Cons map_Suc_upt del: upt_Suc)
  then show ?thesis
    by (simp add: numbered_def comp_def del: upt_Suc)
qed

lemma numbered_length: "length (numbered n ts) = length ts"
  by (simp add: numbered_def)

lemma numbered_append:
  "numbered n (ts @ us) = numbered n ts @ numbered (n + length ts) us"
  by (induction ts arbitrary: n) (simp_all add: numbered_Nil numbered_Cons)

lemma window_texts_Cons:
  "window_texts (p # ps) = (if truthy (detail p) then the (detail p) # window_texts ps else window_texts ps)"
  by (simp add: window_texts_def)

lemma fold_onProgress_pendingCompleted:
  "pendingCompleted (fold onProgress ps s) = last_write (pendingCompleted s) (map progress ps)"
  by (induction ps arbitrary: s) (simp_all add: last_write_Nil last_write_Cons onProgress_pendingCompleted)

lemma fold_onProgress_pendingTotal:
  "pendingTotal (fold onProgress ps s) = last_write (pendingTotal s) (map total_p ps)"
  by (induction ps arbitrary: s) (simp_all add: last_write_Nil last_write_Cons onProgress_pendingTotal)

lemma fold_onProgress_pendingIncrement:
  "\<bar>pendingIncrement s\<bar> + sum_list (map (\<lambda>p. \<bar>increment_of p\<bar>) ps) \<le> 2 ^ 53 \<Longrightarrow>
   pendingIncrement (fold onProgress ps s) = pendingIncrement s + sum_list (map increment_of ps)"
proof (induction ps arbitrary: s)
  case Nil
  then show ?case by simp
next
  case (Cons p ps)
  have nonneg: "0 \<le> sum_list (map (\<lambda>p. \<bar>increment_of p\<bar>) ps)"
    by (rule sum_list_nonneg) auto
  have step: "pendingIncrement (onProgress p s) = pendingIncrement s + increment_of p"
    unfolding onProgress_pendingIncrement
    by (rule js_add_exact) (use Cons.prems nonneg in simp)
  have "\<bar>pendingIncrement (onProgress p s)\<bar> + sum_list (map (\<lambda>p. \<bar>increment_of p\<bar>) ps) \<le> 2 ^ 53"
    unfolding step using Cons.prems by simp
  from Cons.IH [OF this] show ?case
    by (simp add: step)
qed

lemma fold_onProgress_pendingDetailIndex:
  "pendingDetailIndex (fold onProgress ps s) = pendingDetailIndex s + length (window_texts ps)"
  by (induction ps arbitrary: s) (simp_all add: window_texts_def onProgress_pendingDetailIndex)

lemma fold_onProgress_pendingDetails:
  "pendingDetails (fold onProgress ps s) =
     pendingDetails s @ numbered (pendingDetailIndex s) (window_texts ps)"
  by (induction ps arbitrary: s)
     (simp_all add: numbered_Nil numbered_Cons window_texts_Cons onProgress_pendingDetails
        onProgress_pendingDetailIndex window_texts_def[of "[]"])

lemma fold_onProgress_committed:
  "completed (fold onProgress ps s) = completed s" "total (fold onProgress ps s) = total s"
  "details (fold onProgress ps s) = details s" "scrollTicks (fold onProgress ps s) = scrollTicks s"
  "argumentLimit (fold onProgress ps s) = argumentLimit s"
  by (induction ps arbitrary: s) (simp_all add: onProgress_committed)

lemma fold_onProgress_timer:
  "ps \<noteq> [] \<Longrightarrow> flushHandle (fold onProgress ps s) = Some (case flushHandle s of Some h \<Rightarrow> h | None \<Rightarrow> nextTimer s)"
  "ps \<noteq> [] \<Longrightarrow> timers (fold onProgress ps s) = (case flushHandle s of Some h \<Rightarrow> timers s | None \<Rightarrow> timers s @ [nextTimer s])"
proof (induction ps arbitrary: s)
  case Nil
  { case 1 then show ?case by simp }
  { case 2 then show ?case by simp }
next
  case (Cons p ps)
  { case 1 then show ?case using Cons.IH(1)[of "onProgress p s"]
      by (cases "ps = []") (simp_all add: onProgress_timer) }
  { case 2 then show ?case using Cons.IH(2)[of "onProgress p s"]
      by (cases "ps = []") (simp_all add: onProgress_timer) }
qed

subsection \<open>Binding\<close>

lemma startListening_call_fields:
  "completed (snd (startListening_call j s)) = 0"
  "total (snd (startListening_call j s)) = 0"
  "details (snd (startListening_call j s)) = []"
  "pendingCompleted (snd (startListening_call j s)) = None"
  "pendingIncrement (snd (startListening_call j s)) = 0"
  "pendingTotal (snd (startListening_call j s)) = None"
  "pendingDetails (snd (startListening_call j s)) = []"
  "pendingDetailIndex (snd (startListening_call j s)) = 0"
  "flushHandle (snd (startListening_call j s)) = None"
  "timers (snd (startListening_call j s)) =
     (case flushHandle s of None \<Rightarrow> timers s | Some h \<Rightarrow> removeAll h (timers s))"
  by (simp_all add: startListening_call_def listen_def unlisten_def cancelFlushTimer_def
      resetPending_def clearDisplayedProgress_def Let_def split: option.splits)

lemma resume_settle_fields:
  "completed (snd (startListening_resume (settleListen rq s))) = completed s"
  "total (snd (startListening_resume (settleListen rq s))) = total s"
  "details (snd (startListening_resume (settleListen rq s))) = details s"
  "pendingCompleted (snd (startListening_resume (settleListen rq s))) = pendingCompleted s"
  "pendingIncrement (snd (startListening_resume (settleListen rq s))) = pendingIncrement s"
  "pendingTotal (snd (startListening_resume (settleListen rq s))) = pendingTotal s"
  "pendingDetails (snd (startListening_resume (settleListen rq s))) = pendingDetails s"
  "pendingDetailIndex (snd (startListening_resume (settleListen rq s))) = pendingDetailIndex s"
  "flushHandle (snd (startListening_resume (settleListen rq s))) = flushHandle s"
  "timers (snd (startListening_resume (settleListen rq s))) = timers s"
  by (simp_all add: settleListen_def Let_def)

lemma startListening_unfold:
  "startListening j s =
     startListening_resume
       (settleListen (fst (startListening_call j s), topic j) (snd (startListening_call j s)))"
  by (simp add: startListening_def split: prod.splits)

lemma startListening_fields:
  "completed (snd (startListening j s)) = 0"
  "total (snd (startListening j s)) = 0"
  "details (snd (startListening j s)) = []"
  "pendingCompleted (snd (startListening j s)) = None"
  "pendingIncrement (snd (startListening j s)) = 0"
  "pendingTotal (snd (startListening j s)) = None"
  "pendingDetails (snd (startListening j s)) = []"
  "pendingDetailIndex (snd (startListening j s)) = 0"
  "flushHandle (snd (startListening j s)) = None"
  "timers (snd (startListening j s)) =
     (case flushHandle s of None \<Rightarrow> timers s | Some h \<Rightarrow> removeAll h (timers s))"
  by (simp_all add: startListening_unfold resume_settle_fields startListening_call_fields)

text \<open>
  A second call while the first is suspended finds \<open>progressUnlisten\<close> still empty:
  both listeners get registered, and only the second can be released later.
\<close>

lemma second_call_during_await:
  "listeners (run [Watch (JValue ''a''), Watch (JValue ''b''), Settle 1, Settle 2] init) =
     [(1, ''progress:a''), (2, ''progress:b'')] \<and>
   progressUnlisten (run [Watch (JValue ''a''), Watch (JValue ''b''), Settle 1, Settle 2] init) = Some 2"
  by (simp add: run_def startListening_call_def settleListen_def listen_def unlisten_def
      cancelFlushTimer_def resetPending_def clearDisplayedProgress_def init_def)

subsection \<open>Timers\<close>

lemma one_timer_onProgress: "one_timer s \<Longrightarrow> one_timer (onProgress p s)"
  by (simp add: one_timer_def onProgress_timer split: option.splits)

lemma one_timer_fold_onProgress: "one_timer s \<Longrightarrow> one_timer (fold (\<lambda>l. onProgress p) ls s)"
  by (induction ls arbitrary: s) (simp_all add: one_timer_onProgress)

lemma one_timer_fireTimer: "one_timer s \<Longrightarrow> one_timer (fireTimer h s)"
  by (auto simp: one_timer_def fireTimer_def flushTimeout_def flush_host split: option.splits)

lemma one_timer_call: "one_timer s \<Longrightarrow> one_timer (snd (startListening_call j s))"
  by (simp add: one_timer_def startListening_call_fields split: option.splits)

lemma one_timer_settle: "one_timer s \<Longrightarrow> one_timer (snd (startListening_resume (settleListen rq s)))"
  by (simp add: one_timer_def resume_settle_fields)

lemma one_timer_onBeforeUnmount: "one_timer s \<Longrightarrow> one_timer (onBeforeUnmount s)"
  by (simp add: one_timer_def onBeforeUnmount_def unlisten_def cancelFlushTimer_def Let_def
      split: option.splits)

lemma one_timer_step: "one_timer s \<Longrightarrow> one_timer (step e s)"
proof (cases e)
  case (Channel b)
  assume "one_timer s"
  with Channel show ?thesis by (simp add: one_timer_def)
qed (simp_all add: one_timer_fold_onProgress one_timer_fireTimer one_timer_call
      one_timer_settle one_timer_onBeforeUnmount split: option.splits)

lemma one_timer_run: "one_timer s \<Longrightarrow> one_timer (run evs s)"
  unfolding run_def by (induction evs arbitrary: s) (simp_all add: one_timer_step)

lemma one_timer_init: "one_timer init"
  by (simp add: one_timer_def init_def)

subsection \<open>Numbering\<close>

lemma numbering_iff:
  "numbering ts s \<longleftrightarrow>
     pendingDetailIndex s = length ts \<and>
     (\<exists>k\<le>length ts.
        details s @ pendingDetails s = map (\<lambda>i. detail_line (Suc i) (ts ! i)) [k..<length ts])"
  by (simp add: numbering_def Bex_def less_Suc_eq_le del: upt_Suc)

lemma numbering_onProgress:
  assumes "numbering ts s"
  shows "numbering (ts @ arrived [Ingest p]) (onProgress p s)"
proof (cases "truthy (detail p)")
  case False
  with assms show ?thesis
    by (simp add: numbering_iff onProgress_fields)
next
  case True
  from assms obtain k where k: "k \<le> length ts"
    and log: "details s @ pendingDetails s = map (\<lambda>i. detail_line (Suc i) (ts ! i)) [k..<length ts]"
    and idx: "pendingDetailIndex s = length ts"
    by (auto simp: numbering_iff)
  let ?t = "the (detail p)"
  have "map (\<lambda>i. detail_line (Suc i) ((ts @ [?t]) ! i)) [k..<length (ts @ [?t])]
      = map (\<lambda>i. detail_line (Suc i) (ts ! i)) [k..<length ts] @ [detail_line (Suc (length ts)) ?t]"
    using k by (simp add: nth_append)
  with log idx True k show ?thesis
    by (auto simp: numbering_iff onProgress_fields intro!: exI[of _ k])
qed

lemma numbering_flushTimeout:
  assumes "numbering ts s"
  shows "numbering ts (snd (flushTimeout s))"
proof -
  from assms obtain k where k: "k \<le> length ts"
    and log: "details s @ pendingDetails s = map (\<lambda>i. detail_line (Suc i) (ts ! i)) [k..<length ts]"
    and idx: "pendingDetailIndex s = length ts"
    by (auto simp: numbering_iff)
  let ?all = "details s @ pendingDetails s"
  let ?m = "length ?all - 10000"
  have len: "length ?all = length ts - k"
    using log by (metis length_map length_upt)
  have "drop ?m ?all = map (\<lambda>i. detail_line (Suc i) (ts ! i)) [k + ?m..<length ts]"
    by (simp only: log drop_map drop_upt)
  moreover have "k + ?m \<le> length ts" using len k by simp
  ultimately show ?thesis using log idx k
    by (auto simp: numbering_iff flushTimeout_def flush_fields trimDetails_def
        intro: exI[of _ k] exI[of _ "k + ?m"])
qed

lemma numbering_play: "numbering ts s \<Longrightarrow> numbering (ts @ arrived acts) (play acts s)"
proof (induction acts arbitrary: ts s)
  case Nil
  then show ?case by (simp add: play_def)
next
  case (Cons a acts)
  show ?case
  proof (cases a)
    case (Ingest p)
    from Cons.IH[OF numbering_onProgress[OF Cons.prems, of p]] Ingest
    show ?thesis by (auto simp: play_def split: if_splits)
  next
    case Flush
    from Cons.IH[OF numbering_flushTimeout[OF Cons.prems]] Flush
    show ?thesis by (simp add: play_def)
  qed
qed

subsection \<open>The length of the log\<close>

lemma trimDetails_length: "length (trimDetails ds) \<le> 10500"
  by (simp add: trimDetails_def)

lemma details_bound_act: "length (details s) \<le> 10500 \<Longrightarrow> length (details (act a s)) \<le> 10500"
  by (cases a) (simp_all add: onProgress_committed flushTimeout_def flush_details trimDetails_length)

lemma details_bound_play: "length (details s) \<le> 10500 \<Longrightarrow> length (details (play acts s)) \<le> 10500"
  unfolding play_def by (induction acts arbitrary: s) (simp_all add: details_bound_act)

section \<open>The claims\<close>

text \<open>
  C1. The claim holds for the timer: a window ends with one timeout, and it flushes once.
  It fails for the commit when the window holds more detail lines than the engine
  accepts as arguments of one call. Here the host accepts 65535, and the window is one
  payload with a total followed by 70000 payloads with a detail. The one timeout expires,
  the flush writes the total and then throws a \<open>RangeError\<close> at \<open>push\<close>: no line of
  the window is committed to the log, and all 70000 stay pending.
\<close>

theorem flush_of_large_window_throws:
  "argumentLimit init = 65535 \<and>
   timers (fold onProgress
     (\<lparr>progress = None, progressInc = None, total_p = Some 70000, detail = None\<rparr> #
      replicate 70000 \<lparr>progress = None, progressInc = None, total_p = None, detail = Some ''x''\<rparr>)
     init) = [1] \<and>
   fst (flushTimeout ((fold onProgress
     (\<lparr>progress = None, progressInc = None, total_p = Some 70000, detail = None\<rparr> #
      replicate 70000 \<lparr>progress = None, progressInc = None, total_p = None, detail = Some ''x''\<rparr>)
     init)\<lparr>timers := []\<rparr>)) = Inl RangeError \<and>
   total (fireTimer 1 (fold onProgress
     (\<lparr>progress = None, progressInc = None, total_p = Some 70000, detail = None\<rparr> #
      replicate 70000 \<lparr>progress = None, progressInc = None, total_p = None, detail = Some ''x''\<rparr>)
     init)) = 70000 \<and>
   details (fireTimer 1 (fold onProgress
     (\<lparr>progress = None, progressInc = None, total_p = Some 70000, detail = None\<rparr> #
      replicate 70000 \<lparr>progress = None, progressInc = None, total_p = None, detail = Some ''x''\<rparr>)
     init)) = [] \<and>
   length (pendingDetails (fireTimer 1 (fold onProgress
     (\<lparr>progress = None, progressInc = None, total_p = Some 70000, detail = None\<rparr> #
      replicate 70000 \<lparr>progress = None, progressInc = None, total_p = None, detail = Some ''x''\<rparr>)
     init))) = 70000"
proof -
  let ?d = "\<lparr>progress = None, progressInc = None, total_p = None, detail = Some ''x''\<rparr>"
  let ?t = "\<lparr>progress = None, progressInc = None, total_p = Some 70000, detail = None\<rparr>"
  let ?s = "onProgress ?t init"
  let ?w = "fold onProgress (replicate 70000 ?d) ?s"
  have wt: "window_texts (replicate 70000 ?d) = replicate 70000 ''x''"
    by (simp add: window_texts_def)
  have s: "flushHandle ?s = Some 1" "timers ?s = [1]" "pendingTotal ?s = Some 70000"
    "pendingDetails ?s = []" "details ?s = []" "argumentLimit ?s = 65535"
    by (simp_all add: onProgress_fields init_def)
  have rep: "replicate 70000 ?d \<noteq> []" by simp
  have t: "timers ?w = [1]" "flushHandle ?w = Some 1"
    using fold_onProgress_timer [OF rep, of ?s] s by simp_all
  have pd: "length (pendingDetails ?w) = 70000"
    by (simp only: fold_onProgress_pendingDetails s wt numbered_length append_Nil length_replicate)
  have pt: "pendingTotal ?w = Some 70000"
    by (simp add: fold_onProgress_pendingTotal s last_write_def del: fold_replicate)
  have lim: "argumentLimit ?w = 65535" "details ?w = []"
    by (simp_all only: fold_onProgress_committed s)
  have ne: "pendingDetails ?w \<noteq> []" using pd by auto
  show ?thesis
    using t pd pt lim ne
    by (simp add: fireTimer_def flushTimeout_def flush_fields init_def del: fold_replicate)
qed

text \<open>
  C2. The numbers are given at arrival and in the order of arrival, and nothing renumbers
  them. The claim fails where it says that the next flush commits the two lines: after
  70000 payloads with a detail, on a host that accepts 65535 arguments in a call, the
  payloads with details \<open>a\<close> and \<open>b\<close> get the numbers 70001 and 70002, and the flush
  throws a \<open>RangeError\<close> at \<open>push\<close> and commits neither of them.
\<close>

theorem pair_after_large_window_not_committed:
  "argumentLimit init = 65535 \<and>
   fst (flushProgressUpdates
     (onProgress \<lparr>progress = None, progressInc = None, total_p = None, detail = Some ''b''\<rparr>
       (onProgress \<lparr>progress = None, progressInc = None, total_p = None, detail = Some ''a''\<rparr>
         (fold onProgress
           (replicate 70000 \<lparr>progress = None, progressInc = None, total_p = None, detail = Some ''x''\<rparr>)
           init)))) = Inl RangeError \<and>
   details (snd (flushProgressUpdates
     (onProgress \<lparr>progress = None, progressInc = None, total_p = None, detail = Some ''b''\<rparr>
       (onProgress \<lparr>progress = None, progressInc = None, total_p = None, detail = Some ''a''\<rparr>
         (fold onProgress
           (replicate 70000 \<lparr>progress = None, progressInc = None, total_p = None, detail = Some ''x''\<rparr>)
           init))))) = [] \<and>
   drop 70000 (pendingDetails (snd (flushProgressUpdates
     (onProgress \<lparr>progress = None, progressInc = None, total_p = None, detail = Some ''b''\<rparr>
       (onProgress \<lparr>progress = None, progressInc = None, total_p = None, detail = Some ''a''\<rparr>
         (fold onProgress
           (replicate 70000 \<lparr>progress = None, progressInc = None, total_p = None, detail = Some ''x''\<rparr>)
           init)))))) = [''[70001] a'', ''[70002] b'']"
proof -
  let ?d = "\<lparr>progress = None, progressInc = None, total_p = None, detail = Some ''x''\<rparr>"
  let ?w = "fold onProgress (replicate 70000 ?d) init"
  have wt: "window_texts (replicate 70000 ?d) = replicate 70000 ''x''"
    by (simp add: window_texts_def)
  have i: "pendingDetails init = []" "pendingDetailIndex init = 0" "details init = []"
    "argumentLimit init = 65535"
    by (simp_all add: init_def)
  have pd: "length (pendingDetails ?w) = 70000"
    by (simp only: fold_onProgress_pendingDetails i wt numbered_length append_Nil length_replicate)
  have ix: "pendingDetailIndex ?w = 70000"
    by (simp only: fold_onProgress_pendingDetailIndex i wt length_replicate add_0)
  have lim: "argumentLimit ?w = 65535" "details ?w = []"
    by (simp_all only: fold_onProgress_committed i)
  have l1: "detail_line 70001 ''a'' = ''[70001] a''" and l2: "detail_line 70002 ''b'' = ''[70002] b''"
    by (simp_all add: detail_line_def string_of_nat.simps digit_char_def)
  show ?thesis
    using pd ix lim l1 l2
    by (simp add: flush_fields onProgress_fields i del: fold_replicate)
qed

text \<open>
  C3, as amended. A flush whose pending lines fit into one call of \<open>push\<close> leaves the old
  log followed by the new lines when these are at most 10500 together; when they are
  more, it leaves exactly the last 10000 of them, in their order and as they were written
  (numbers included). After \<open>startListening\<close> the log never holds more than 10500 lines.
\<close>

theorem log_trimmed_past_10500:
  assumes "pendingDetails s \<noteq> []" and "length (pendingDetails s) \<le> argumentLimit s"
  shows "fst (flushProgressUpdates s) = Inr () \<and>
         details (snd (flushProgressUpdates s)) =
           (if 10500 < length (details s @ pendingDetails s)
            then drop (length (details s @ pendingDetails s) - 10000) (details s @ pendingDetails s)
            else details s @ pendingDetails s) \<and>
         length (details (snd (flushProgressUpdates s))) =
           (if 10500 < length (details s) + length (pendingDetails s) then 10000
            else length (details s) + length (pendingDetails s)) \<and>
         length (details (play acts (snd (startListening j s')))) \<le> 10500"
proof -
  let ?all = "details s @ pendingDetails s"
  have d: "details (snd (flushProgressUpdates s)) = trimDetails ?all"
    and r: "fst (flushProgressUpdates s) = Inr ()"
    using assms by (simp_all add: flush_details flush_result)
  have l: "length (trimDetails ?all) = (if 10500 < length ?all then 10000 else length ?all)"
    unfolding trimDetails_def by (simp only: length_drop split: if_split) arith
  have b: "length (details (play acts (snd (startListening j s')))) \<le> 10500"
    by (rule details_bound_play) (simp add: startListening_fields)
  show ?thesis
    using l b r unfolding d by (simp add: trimDetails_def)
qed

theorem log_trimmed_past_10500_witness:
  "pendingDetails (init\<lparr>details := replicate 10400 ''[1] old'',
                        pendingDetails := replicate 200 ''[2] new''\<rparr>) \<noteq> [] \<and>
   length (pendingDetails (init\<lparr>details := replicate 10400 ''[1] old'',
                        pendingDetails := replicate 200 ''[2] new''\<rparr>))
     \<le> argumentLimit (init\<lparr>details := replicate 10400 ''[1] old'',
                        pendingDetails := replicate 200 ''[2] new''\<rparr>) \<and>
   details (snd (flushProgressUpdates (init\<lparr>details := replicate 10400 ''[1] old'',
                        pendingDetails := replicate 200 ''[2] new''\<rparr>)))
     = replicate 9800 ''[1] old'' @ replicate 200 ''[2] new'' \<and>
   length (details (snd (flushProgressUpdates (init\<lparr>details := replicate 10400 ''[1] old'',
                        pendingDetails := replicate 200 ''[2] new''\<rparr>)))) = 10000"
  using log_trimmed_past_10500 [of "init\<lparr>details := replicate 10400 ''[1] old'',
                        pendingDetails := replicate 200 ''[2] new''\<rparr>"]
  by (simp add: init_def)

text \<open>
  C3 as stated asks for exactly 10000 lines once more than 10000 have been appended. The
  code trims only past 10500: after 10001 payloads with a detail and one flush the log
  holds 10001 lines.
\<close>

theorem log_not_cut_to_10000_counterexample:
  "length (details (snd (flushProgressUpdates (fold onProgress
     (replicate 10001 \<lparr>progress = None, progressInc = None, total_p = None, detail = Some ''x''\<rparr>)
     init)))) = 10001"
  by (simp add: flush_details fold_onProgress_pendingDetails fold_onProgress_committed
      numbered_def window_texts_def trimDetails_def init_def del: fold_replicate)

text \<open>
  C5. When a flush runs with a pending absolute value and a pending increment, the absolute
  value is written first and the increment is added to it (as numbers are added, and
  exactly when the sum is at most \<open>2 ^ 53\<close> in magnitude). In particular, from a state
  with no increment pending and any displayed values, the payloads \<open>{progress: 10}\<close> and
  \<open>{progressInc: 2}\<close> followed by a flush leave \<open>completed = 12\<close>.
\<close>

theorem flush_absolute_before_increment:
  "(pendingCompleted s = Some a \<longrightarrow>
      completed (snd (flushProgressUpdates s)) = js_add a (pendingIncrement s)) \<and>
   (pendingCompleted s = Some a \<and> \<bar>a + pendingIncrement s\<bar> \<le> 2 ^ 53 \<longrightarrow>
      completed (snd (flushProgressUpdates s)) = a + pendingIncrement s) \<and>
   (pendingIncrement s = 0 \<longrightarrow>
      completed (snd (flushProgressUpdates
        (onProgress \<lparr>progress = None, progressInc = Some 2, total_p = None, detail = None\<rparr>
          (onProgress \<lparr>progress = Some 10, progressInc = None, total_p = None, detail = None\<rparr> s))))
      = 12)"
proof -
  have "js_add 10 2 = 12"
    by (simp add: js_add_exact)
  then show ?thesis
    by (simp add: flush_completed onProgress_pendingCompleted onProgress_pendingIncrement
        increment_of_def js_add_exact)
qed

theorem flush_absolute_before_increment_witness:
  "pendingCompleted (init\<lparr>pendingCompleted := Some 7, completed := 99\<rparr>) = Some 7 \<and>
   pendingIncrement (init\<lparr>pendingCompleted := Some 7, completed := 99\<rparr>) = 0 \<and>
   completed (snd (flushProgressUpdates (init\<lparr>pendingCompleted := Some 7, completed := 99\<rparr>))) = 7 \<and>
   completed (snd (flushProgressUpdates
        (onProgress \<lparr>progress = None, progressInc = Some 2, total_p = None, detail = None\<rparr>
          (onProgress \<lparr>progress = Some 10, progressInc = None, total_p = None, detail = None\<rparr>
             (init\<lparr>pendingCompleted := Some 7, completed := 99\<rparr>))))) = 12"
  using flush_absolute_before_increment [of "init\<lparr>pendingCompleted := Some 7, completed := 99\<rparr>" 7]
  by (simp add: init_def)

text \<open>
  C6, as amended. Increments add up and none is lost as long as the sums are exact: when
  no payload of the window carries an absolute value, nothing is pending at its start,
  and the magnitudes of \<open>completed\<close> and of the increments of the window add up to at most
  \<open>2 ^ 53\<close>, the flush raises \<open>completed\<close> by exactly the sum of the increments of the
  window (3 and 4 raise it by 7).
\<close>

theorem increments_accumulate:
  assumes "\<forall>p \<in> set ps. progress p = None"
    and "pendingCompleted s = None" and "pendingIncrement s = 0"
    and "\<bar>completed s\<bar> + sum_list (map (\<lambda>p. \<bar>increment_of p\<bar>) ps) \<le> 2 ^ 53"
  shows "completed (snd (flushProgressUpdates (fold onProgress ps s))) =
           completed s + sum_list (map increment_of ps)"
proof -
  have "filter (\<lambda>x. x \<noteq> None) (map progress ps) = []"
    using assms(1) by (induction ps) simp_all
  then have none: "last_write None (map progress ps) = None"
    by (simp add: last_write_def)
  have nonneg: "0 \<le> \<bar>completed s\<bar>" by simp
  have "\<bar>pendingIncrement s\<bar> + sum_list (map (\<lambda>p. \<bar>increment_of p\<bar>) ps) \<le> 2 ^ 53"
    using assms(3,4) by simp
  from fold_onProgress_pendingIncrement [OF this]
  have inc: "pendingIncrement (fold onProgress ps s) = sum_list (map increment_of ps)"
    using assms(3) by simp
  have "\<bar>sum_list (map increment_of ps)\<bar> \<le> sum_list (map (\<lambda>p. \<bar>increment_of p\<bar>) ps)"
    by (induction ps) auto
  then have "\<bar>completed s + sum_list (map increment_of ps)\<bar> \<le> 2 ^ 53"
    using assms(4) by linarith
  then show ?thesis
    using assms(2) none
    by (simp add: flush_completed fold_onProgress_pendingCompleted fold_onProgress_committed inc
        js_add_exact)
qed

theorem increments_accumulate_witness:
  "progress \<lparr>progress = None, progressInc = Some 3, total_p = None, detail = None\<rparr> = None \<and>
   progress \<lparr>progress = None, progressInc = Some 4, total_p = None, detail = None\<rparr> = None \<and>
   pendingCompleted (init\<lparr>completed := 5\<rparr>) = None \<and>
   pendingIncrement (init\<lparr>completed := 5\<rparr>) = 0 \<and>
   \<bar>completed (init\<lparr>completed := 5\<rparr>)\<bar> + (\<bar>3\<bar> + \<bar>4\<bar>) \<le> (2 ^ 53 :: int) \<and>
   completed (snd (flushProgressUpdates (fold onProgress
      [\<lparr>progress = None, progressInc = Some 3, total_p = None, detail = None\<rparr>,
       \<lparr>progress = None, progressInc = Some 4, total_p = None, detail = None\<rparr>]
      (init\<lparr>completed := 5\<rparr>)))) = 5 + 7"
  using increments_accumulate [of
      "[\<lparr>progress = None, progressInc = Some 3, total_p = None, detail = None\<rparr>,
        \<lparr>progress = None, progressInc = Some 4, total_p = None, detail = None\<rparr>]"
      "init\<lparr>completed := 5\<rparr>"]
  by (simp add: init_def increment_of_def)

text \<open>
  C6 as stated promises the exact sum for every sequence of increments. Numbers are
  doubles: the increments \<open>2 ^ 53 = 9007199254740992\<close> and 1, with nothing else in the
  window, raise \<open>completed\<close> from 0 to \<open>2 ^ 53\<close>, not to \<open>2 ^ 53 + 1\<close>: the 1 is lost.
\<close>

theorem increment_lost_past_2_53_counterexample:
  "progress \<lparr>progress = None, progressInc = Some 9007199254740992, total_p = None, detail = None\<rparr> = None \<and>
   progress \<lparr>progress = None, progressInc = Some 1, total_p = None, detail = None\<rparr> = None \<and>
   pendingCompleted init = None \<and> pendingIncrement init = 0 \<and> completed init = 0 \<and>
   completed (snd (flushProgressUpdates (fold onProgress
      [\<lparr>progress = None, progressInc = Some 9007199254740992, total_p = None, detail = None\<rparr>,
       \<lparr>progress = None, progressInc = Some 1, total_p = None, detail = None\<rparr>]
      init))) = 9007199254740992 \<and>
   completed init + (9007199254740992 + 1) = (9007199254740993 :: int)"
proof -
  have "bit_length 9007199254740993 = 54"
    by code_simp
  then have "js_add 9007199254740992 1 = 9007199254740992"
    by (simp add: js_add_def nearest_double_def Let_def)
  then show ?thesis
    by (simp add: flush_completed onProgress_fields increment_of_def init_def)
qed

text \<open>
  C9. The fraction handed to the progress bar is never the result of a division by zero:
  with \<open>total = 0\<close> the bar is indeterminate and the computed value is 0 (the test on
  \<open>total\<close> comes first), otherwise it is \<open>completed / total\<close>.
\<close>

theorem linearProgress_total_zero:
  "linearProgress s \<noteq> NotFinite \<and>
   (total s = 0 \<longrightarrow> indeterminate s \<and> linearProgress s = Finite 0) \<and>
   (total s \<noteq> 0 \<longrightarrow>
      \<not> indeterminate s \<and> linearProgress s = Finite (of_int (completed s) / of_int (total s)))"
  by (simp add: linearProgress_def indeterminate_def js_divide_def)

theorem linearProgress_total_zero_witness:
  "total (init\<lparr>completed := 3\<rparr>) = 0 \<and> indeterminate (init\<lparr>completed := 3\<rparr>) \<and>
   linearProgress (init\<lparr>completed := 3\<rparr>) = Finite 0 \<and>
   total (init\<lparr>completed := 3, total := 4\<rparr>) \<noteq> 0 \<and>
   \<not> indeterminate (init\<lparr>completed := 3, total := 4\<rparr>) \<and>
   linearProgress (init\<lparr>completed := 3, total := 4\<rparr>) = Finite (3 / 4)"
  using linearProgress_total_zero [of "init\<lparr>completed := 3\<rparr>"]
    linearProgress_total_zero [of "init\<lparr>completed := 3, total := 4\<rparr>"]
  by (simp add: init_def)

text \<open>
  C10. A payload whose detail is the empty string is handled exactly as one without detail:
  no line is pushed and the counter does not move (in the numbering handler and in the
  one that pushes the detail as it is). The numeric fields are tested by type, so a
  progress, total or increment of 0 is taken.
\<close>

theorem empty_detail_is_no_detail:
  "(detail p = Some [] \<longrightarrow>
      onProgress p s = onProgress (p\<lparr>detail := None\<rparr>) s \<and>
      onProgress_unnumbered p s = onProgress_unnumbered (p\<lparr>detail := None\<rparr>) s \<and>
      pendingDetails (onProgress p s) = pendingDetails s \<and>
      pendingDetailIndex (onProgress p s) = pendingDetailIndex s \<and>
      pendingDetails (onProgress_unnumbered p s) = pendingDetails s) \<and>
   (progress p = Some 0 \<longrightarrow> pendingCompleted (onProgress p s) = Some 0 \<and>
      completed (snd (flushProgressUpdates (onProgress p s))) = pendingIncrement (onProgress p s)) \<and>
   (total_p p = Some 0 \<longrightarrow> pendingTotal (onProgress p s) = Some 0 \<and>
      total (snd (flushProgressUpdates (onProgress p s))) = 0) \<and>
   (progressInc p = Some 0 \<longrightarrow> pendingIncrement (onProgress p s) = pendingIncrement s)"
proof -
  have "onProgress p s = onProgress (p\<lparr>detail := None\<rparr>) s"
    and "onProgress_unnumbered p s = onProgress_unnumbered (p\<lparr>detail := None\<rparr>) s"
    and "pendingDetails (onProgress_unnumbered p s) = pendingDetails s"
    if "detail p = Some []"
    using that
    by (simp_all add: onProgress_def onProgress_unnumbered_def scheduleProgressFlush_def Let_def
        split: option.splits)
  then show ?thesis
    by (simp add: onProgress_fields flush_fields increment_of_def)
qed

theorem empty_detail_is_no_detail_witness:
  "detail \<lparr>progress = Some 0, progressInc = Some 0, total_p = Some 0, detail = Some []\<rparr> = Some [] \<and>
   pendingDetails (onProgress \<lparr>progress = Some 0, progressInc = Some 0, total_p = Some 0, detail = Some []\<rparr>
      (init\<lparr>completed := 8, total := 9\<rparr>)) = [] \<and>
   pendingDetailIndex (onProgress \<lparr>progress = Some 0, progressInc = Some 0, total_p = Some 0, detail = Some []\<rparr>
      (init\<lparr>completed := 8, total := 9\<rparr>)) = 0 \<and>
   completed (snd (flushProgressUpdates (onProgress \<lparr>progress = Some 0, progressInc = Some 0, total_p = Some 0, detail = Some []\<rparr>
      (init\<lparr>completed := 8, total := 9\<rparr>)))) = 0 \<and>
   total (snd (flushProgressUpdates (onProgress \<lparr>progress = Some 0, progressInc = Some 0, total_p = Some 0, detail = Some []\<rparr>
      (init\<lparr>completed := 8, total := 9\<rparr>)))) = 0"
  using empty_detail_is_no_detail [of "\<lparr>progress = Some 0, progressInc = Some 0, total_p = Some 0, detail = Some []\<rparr>"
      "init\<lparr>completed := 8, total := 9\<rparr>"]
  by (simp add: init_def onProgress_fields increment_of_def)

text \<open>
  C7, as amended. The handler given the empty payload leaves the pending record and the
  displayed values as they are. It leaves an armed timer alone, so the whole state stays
  the same; with no timer armed it arms one.
\<close>

theorem empty_payload_keeps_state:
  assumes "p = \<lparr>progress = None, progressInc = None, total_p = None, detail = None\<rparr>"
  shows "pendingCompleted (onProgress p s) = pendingCompleted s \<and>
         pendingIncrement (onProgress p s) = pendingIncrement s \<and>
         pendingTotal (onProgress p s) = pendingTotal s \<and>
         pendingDetails (onProgress p s) = pendingDetails s \<and>
         pendingDetailIndex (onProgress p s) = pendingDetailIndex s \<and>
         completed (onProgress p s) = completed s \<and>
         total (onProgress p s) = total s \<and>
         details (onProgress p s) = details s \<and>
         (flushHandle s \<noteq> None \<longrightarrow> onProgress p s = s) \<and>
         (flushHandle s = None \<longrightarrow>
            flushHandle (onProgress p s) = Some (nextTimer s) \<and>
            timers (onProgress p s) = timers s @ [nextTimer s])"
proof -
  have "flushHandle s \<noteq> None \<longrightarrow> onProgress p s = s"
    using assms by (auto simp: onProgress_def scheduleProgressFlush_def)
  then show ?thesis
    using assms by (simp add: onProgress_fields increment_of_def)
qed

theorem empty_payload_keeps_state_witness:
  "flushHandle (init\<lparr>flushHandle := Some 4, timers := [4]\<rparr>) \<noteq> None \<and>
   onProgress \<lparr>progress = None, progressInc = None, total_p = None, detail = None\<rparr>
     (init\<lparr>flushHandle := Some 4, timers := [4]\<rparr>) = init\<lparr>flushHandle := Some 4, timers := [4]\<rparr> \<and>
   flushHandle init = None \<and>
   flushHandle (onProgress \<lparr>progress = None, progressInc = None, total_p = None, detail = None\<rparr> init)
     = Some (nextTimer init)"
  using empty_payload_keeps_state [OF refl, of "init\<lparr>flushHandle := Some 4, timers := [4]\<rparr>"]
    empty_payload_keeps_state [OF refl, of init]
  by (simp add: init_def)

text \<open>
  C7 as stated says that the empty payload never arms a timer. The handler calls
  \<open>scheduleProgressFlush\<close> whatever the payload holds: from the initial state, with no
  timer armed, the empty payload arms timeout 1.
\<close>

theorem empty_payload_arms_timer_counterexample:
  "flushHandle init = None \<and> timers init = [] \<and>
   flushHandle (onProgress \<lparr>progress = None, progressInc = None, total_p = None, detail = None\<rparr> init) = Some 1 \<and>
   timers (onProgress \<lparr>progress = None, progressInc = None, total_p = None, detail = None\<rparr> init) = [1]"
  by (simp add: onProgress_timer init_def)

text \<open>
  C8, as amended. \<open>startListening\<close> has no test for a null handle. Called with null it
  asks the channel for a listener on the topic \<open>progress:null\<close>, as it asks for the topic
  of any other handle. When the channel accepts, that listener is established and the
  call succeeds; when the channel rejects, no listener is established and the call fails,
  and this is the only way in which it fails.
\<close>

theorem startListening_null_like_any:
  "topic JNull = ''progress:null'' \<and>
   fst (startListening_call j s) = nextListener s \<and>
   requests (snd (startListening_call j s)) = requests s @ [(nextListener s, topic j)] \<and>
   fst (startListening_resume (settleListen (r, topic j) s')) =
     (if channelUp s' then Inr () else Inl ListenRejected) \<and>
   listeners (snd (startListening_resume (settleListen (r, topic j) s'))) =
     listeners s' @ (if channelUp s' then [(r, topic j)] else []) \<and>
   fst (startListening j s) = (if channelUp s then Inr () else Inl ListenRejected) \<and>
   (channelUp s \<longrightarrow> (nextListener s, topic j) \<in> set (listeners (snd (startListening j s)))) \<and>
   (\<not> channelUp s \<longrightarrow> set (listeners (snd (startListening j s))) \<subseteq> set (listeners s))"
proof -
  have call: "fst (startListening_call j s) = nextListener s"
    "requests (snd (startListening_call j s)) = requests s @ [(nextListener s, topic j)]"
    "channelUp (snd (startListening_call j s)) = channelUp s"
    "set (listeners (snd (startListening_call j s))) \<subseteq> set (listeners s)"
    by (auto simp: startListening_call_def listen_def unlisten_def cancelFlushTimer_def
        resetPending_def clearDisplayedProgress_def Let_def split: option.splits)
  have settle: "fst (startListening_resume (settleListen rq t)) =
      (if channelUp t then Inr () else Inl ListenRejected)"
    "listeners (snd (startListening_resume (settleListen rq t))) =
      listeners t @ (if channelUp t then [rq] else [])" for rq t
    by (simp_all add: settleListen_def Let_def)
  show ?thesis
    using call(4)
    by (auto simp: startListening_unfold settle call(1,2,3))
qed

theorem startListening_null_like_any_witness:
  "channelUp init \<and> fst (startListening JNull init) = Inr () \<and>
   (1, ''progress:null'') \<in> set (listeners (snd (startListening JNull init))) \<and>
   \<not> channelUp (init\<lparr>channelUp := False\<rparr>) \<and>
   fst (startListening JNull (init\<lparr>channelUp := False\<rparr>)) = Inl ListenRejected \<and>
   listeners (snd (startListening JNull (init\<lparr>channelUp := False\<rparr>))) = []"
  using startListening_null_like_any [of JNull init]
    startListening_null_like_any [of JNull "init\<lparr>channelUp := False\<rparr>"]
  by (simp add: init_def)

text \<open>
  C8 as stated says that a null handle establishes no subscription and never fails. From
  the initial state a null handle registers a listener on \<open>progress:null\<close>, and with the
  channel down the call is rejected.
\<close>

theorem startListening_null_subscribes_counterexample:
  "listeners init = [] \<and>
   listeners (snd (startListening JNull init)) = [(1, ''progress:null'')] \<and>
   fst (startListening JNull (init\<lparr>channelUp := False\<rparr>)) = Inl ListenRejected"
  by (simp add: startListening_def startListening_call_def settleListen_def listen_def
      unlisten_def cancelFlushTimer_def resetPending_def clearDisplayedProgress_def init_def)

text \<open>
  C4. \<open>startListening\<close> resets everything, from any state and whether or not the
  subscription succeeds: the displayed values are 0, 0 and the empty log, the pending
  record is empty and its counter back at 0, and the timer held by \<open>flushHandle\<close> is
  cleared. In a state the panel can reach no timeout is left at all, so nothing that was
  pending is committed later: neither a flush nor an expiring timeout changes the state.
  All of this happens before the first suspension of the function.
\<close>

theorem startListening_resets:
  "completed (snd (startListening j s)) = 0 \<and>
   total (snd (startListening j s)) = 0 \<and>
   details (snd (startListening j s)) = [] \<and>
   pendingCompleted (snd (startListening j s)) = None \<and>
   pendingIncrement (snd (startListening j s)) = 0 \<and>
   pendingTotal (snd (startListening j s)) = None \<and>
   pendingDetails (snd (startListening j s)) = [] \<and>
   pendingDetailIndex (snd (startListening j s)) = 0 \<and>
   flushHandle (snd (startListening j s)) = None \<and>
   (\<forall>h. flushHandle s = Some h \<longrightarrow> h \<notin> set (timers (snd (startListening j s)))) \<and>
   timers (snd (startListening j (run evs init))) = [] \<and>
   flushProgressUpdates (snd (startListening j (run evs init))) =
     (Inr (), snd (startListening j (run evs init))) \<and>
   fireTimer h' (snd (startListening j (run evs init))) = snd (startListening j (run evs init)) \<and>
   completed (snd (startListening_call j s)) = 0 \<and>
   total (snd (startListening_call j s)) = 0 \<and>
   details (snd (startListening_call j s)) = [] \<and>
   pendingCompleted (snd (startListening_call j s)) = None \<and>
   pendingIncrement (snd (startListening_call j s)) = 0 \<and>
   pendingTotal (snd (startListening_call j s)) = None \<and>
   pendingDetails (snd (startListening_call j s)) = [] \<and>
   pendingDetailIndex (snd (startListening_call j s)) = 0 \<and>
   flushHandle (snd (startListening_call j s)) = None"
proof -
  have t: "timers (snd (startListening j (run evs init))) = []"
    using one_timer_run [OF one_timer_init, of evs]
    by (simp add: startListening_fields one_timer_def split: option.splits)
  have f: "flushProgressUpdates (snd (startListening j s)) = (Inr (), snd (startListening j s))" for s
    by (simp add: flushProgressUpdates_def startListening_fields)
  show ?thesis
    using t f [of "run evs init"]
    by (simp add: startListening_fields startListening_call_fields fireTimer_def)
qed

theorem startListening_resets_witness:
  "flushHandle (onProgress \<lparr>progress = Some 5, progressInc = Some 2, total_p = Some 9, detail = Some ''x''\<rparr> init)
     = Some 1 \<and>
   1 \<notin> set (timers (snd (startListening (JValue ''b'')
     (onProgress \<lparr>progress = Some 5, progressInc = Some 2, total_p = Some 9, detail = Some ''x''\<rparr> init)))) \<and>
   pendingDetails (snd (startListening (JValue ''b'')
     (onProgress \<lparr>progress = Some 5, progressInc = Some 2, total_p = Some 9, detail = Some ''x''\<rparr> init))) = [] \<and>
   pendingCompleted (snd (startListening (JValue ''b'')
     (onProgress \<lparr>progress = Some 5, progressInc = Some 2, total_p = Some 9, detail = Some ''x''\<rparr> init))) = None"
  using startListening_resets [of "JValue ''b''"
      "onProgress \<lparr>progress = Some 5, progressInc = Some 2, total_p = Some 9, detail = Some ''x''\<rparr> init"]
  by (simp add: onProgress_timer init_def)

end
